theory Spec2Isabelle
  imports Complex_Main
begin

section \<open>Python primitives used by aeronet/dataset/io.py\<close>

text \<open>
  Exceptions are values: every function of the module that can raise returns
  \<open>error + 'a\<close>, with \<open>Inl\<close> carrying the exception.
\<close>

datatype error =
    ValueError
  | IndexError
  | TypeError string
  | NotImplementedError string

text \<open>
  \<^verbatim>\<open>range(start, stop, step)\<close>: for a positive step the values
  \<open>start, start + step, ...\<close> below \<open>stop\<close>; for a negative step the values above
  \<open>stop\<close>; a zero step raises \<^verbatim>\<open>ValueError\<close>.
\<close>

function range_up :: "int \<Rightarrow> int \<Rightarrow> int \<Rightarrow> int list" where
  "range_up i stop step =
     (if 0 < step \<and> i < stop then i # range_up (i + step) stop step else [])"
  by pat_completeness auto
termination
  by (relation "measure (\<lambda>(i, stop, step). nat (stop - i))") auto

function range_down :: "int \<Rightarrow> int \<Rightarrow> int \<Rightarrow> int list" where
  "range_down i stop step =
     (if step < 0 \<and> stop < i then i # range_down (i + step) stop step else [])"
  by pat_completeness auto
termination
  by (relation "measure (\<lambda>(i, stop, step). nat (i - stop))") auto

declare range_up.simps [simp del] range_down.simps [simp del]

definition py_range :: "int \<Rightarrow> int \<Rightarrow> int \<Rightarrow> error + int list" where
  "py_range start stop step =
     (if step = 0 then Inl ValueError
      else if 0 < step then Inr (range_up start stop step)
      else Inr (range_down start stop step))"

text \<open>
  Sequencing of fallible steps: the first exception raised ends the computation.
\<close>

definition bind_err :: "error + 'a \<Rightarrow> ('a \<Rightarrow> error + 'b) \<Rightarrow> error + 'b" where
  "bind_err m f = (case m of Inl e \<Rightarrow> Inl e | Inr v \<Rightarrow> f v)"

text \<open>
  \<^verbatim>\<open>xs[i]\<close> for the non-negative indices the module uses: out of range raises
  \<^verbatim>\<open>IndexError\<close>.
\<close>

definition py_index :: "'a list \<Rightarrow> nat \<Rightarrow> error + 'a" where
  "py_index xs i = (if i < length xs then Inr (xs ! i) else Inl IndexError)"

text \<open>
  \<^verbatim>\<open>xs[start:stop]\<close>: a negative bound counts from the end, and every bound
  is then clamped to \<open>[0, len xs]\<close>; the slice is empty when the clamped start is not
  below the clamped stop.
\<close>

definition slice_index :: "int \<Rightarrow> nat \<Rightarrow> nat" where
  "slice_index i n = (if i < 0 then nat (max 0 (i + int n)) else min (nat i) n)"

definition py_slice :: "int \<Rightarrow> int \<Rightarrow> 'a list \<Rightarrow> 'a list" where
  "py_slice start stop xs =
     drop (slice_index start (length xs)) (take (slice_index stop (length xs)) xs)"

text \<open>
  A two-dimensional numpy array is the list of its rows. \<^verbatim>\<open>raster.shape\<close> is
  (rows, columns); an array without rows is the empty list, whose column count no slice
  can observe. Every numpy array is rectangular.
\<close>

type_synonym 'a raster = "'a list list"

definition shape0 :: "'a raster \<Rightarrow> int" where
  "shape0 raster = int (length raster)"

definition shape1 :: "'a raster \<Rightarrow> int" where
  "shape1 raster = (case raster of [] \<Rightarrow> 0 | row # _ \<Rightarrow> int (length row))"

definition rectangular :: "'a raster \<Rightarrow> bool" where
  "rectangular raster \<longleftrightarrow> (\<forall>row\<in>set raster. int (length row) = shape1 raster)"

text \<open>\<^verbatim>\<open>raster[a:b, c:d]\<close>: rows \<open>a:b\<close>, and columns \<open>c:d\<close> of each of them.\<close>

definition slice2 :: "int \<Rightarrow> int \<Rightarrow> int \<Rightarrow> int \<Rightarrow> 'a raster \<Rightarrow> 'a raster" where
  "slice2 a b c d raster = map (py_slice c d) (py_slice a b raster)"

text \<open>
  The builtins \<^verbatim>\<open>Predictor.predict\<close> refers to. \<^verbatim>\<open>NotImplemented\<close> is the
  singleton constant of binary special methods and is not callable;
  \<^verbatim>\<open>NotImplementedError\<close> is the exception class. Calling a builtin with one string
  argument either raises or returns the exception instance built.
\<close>

datatype builtin = Builtin_NotImplemented | Builtin_NotImplementedError

definition py_call :: "builtin \<Rightarrow> string \<Rightarrow> error + error" where
  "py_call f arg =
     (case f of
        Builtin_NotImplemented \<Rightarrow> Inl (TypeError ''NotImplementedType object is not callable'')
      | Builtin_NotImplementedError \<Rightarrow> Inr (NotImplementedError arg))"

section \<open>SequentialSampler\<close>

text \<open>
  The band collection is an external collaborator; the sampler reads only its
  \<^verbatim>\<open>height\<close> and \<^verbatim>\<open>width\<close>.
\<close>

record band_collection =
  bc_height :: int
  bc_width :: int

text \<open>
  A block is the dictionary \<^verbatim>\<open>{'x', 'y', 'height', 'width', 'bounds'}\<close>; its
  \<^verbatim>\<open>bounds\<close> entry is the nested list \<^verbatim>\<open>[[top, bottom], [left, right]]\<close>.
\<close>

record block =
  blk_x :: int
  blk_y :: int
  blk_height :: int
  blk_width :: int
  blk_bounds :: "int list list"

text \<open>The attributes \<^verbatim>\<open>__init__\<close> sets before it calls \<^verbatim>\<open>_compute_blocks\<close>.\<close>

record sampler_cfg =
  band_collection :: band_collection
  sample_size :: "int \<times> int"
  bound :: int
  channels :: "string list"

text \<open>
  The inner \<^verbatim>\<open>for x in range(...)\<close> loop body, run over the values of the
  range, appending to \<^verbatim>\<open>blocks\<close>.
\<close>

fun inner_loop ::
  "'a sampler_cfg_scheme \<Rightarrow> int \<Rightarrow> int \<Rightarrow> int \<Rightarrow> int list \<Rightarrow> block list \<Rightarrow> block list" where
  "inner_loop self height width y [] blocks = blocks"
| "inner_loop self height width y (x # xs) blocks =
     (let rigth_x_bound = max (bound self) (x + width - bc_width (band_collection self));
          bottom_y_bound = max (bound self) (y + height - bc_height (band_collection self))
      in inner_loop self height width y xs
           (blocks @ [\<lparr>blk_x = x, blk_y = y, blk_height = height, blk_width = width,
                       blk_bounds = [[bound self, bottom_y_bound],
                                     [bound self, rigth_x_bound]]\<rparr>]))"

text \<open>
  The outer \<^verbatim>\<open>for y in range(...)\<close> loop; the inner range is built anew in
  every iteration, so its \<^verbatim>\<open>ValueError\<close> only shows when the outer range is
  not empty.
\<close>

fun outer_loop ::
  "'a sampler_cfg_scheme \<Rightarrow> int \<Rightarrow> int \<Rightarrow> int \<Rightarrow> int list \<Rightarrow> block list
     \<Rightarrow> error + block list" where
  "outer_loop self height width w [] blocks = Inr blocks"
| "outer_loop self height width w (y # ys) blocks =
     (case py_range (- bound self) (bc_width (band_collection self)) w of
        Inl e \<Rightarrow> Inl e
      | Inr xs \<Rightarrow> outer_loop self height width w ys (inner_loop self height width y xs blocks))"

definition compute_blocks :: "'a sampler_cfg_scheme \<Rightarrow> error + block list" where
  "compute_blocks self =
     (case sample_size self of (h, w) \<Rightarrow>
        let blocks = [];
            height = h + 2 * bound self;
            width = w + 2 * bound self
        in (case py_range (- bound self) (bc_height (band_collection self)) h of
              Inl e \<Rightarrow> Inl e
            | Inr ys \<Rightarrow> outer_loop self height width w ys blocks))"

record sampler = sampler_cfg +
  blocks :: "block list"

definition SequentialSampler_init ::
  "band_collection \<Rightarrow> string list \<Rightarrow> int \<times> int \<Rightarrow> int \<Rightarrow> error + sampler" where
  "SequentialSampler_init bc chs ssize bnd =
     (case compute_blocks \<lparr>band_collection = bc, sample_size = ssize, bound = bnd,
                           channels = chs\<rparr> of
        Inl e \<Rightarrow> Inl e
      | Inr bs \<Rightarrow> Inr \<lparr>band_collection = bc, sample_size = ssize, bound = bnd,
                       channels = chs, blocks = bs\<rparr>)"

definition SequentialSampler_len :: "sampler \<Rightarrow> int" where
  "SequentialSampler_len self = int (length (blocks self))"

text \<open>
  The trimmed write region of a block: the pixels
  \<open>[y + top, y + height - bottom) \<times> [x + left, x + width - right)\<close>, as (row, column)
  pairs.
\<close>

definition top_trim :: "block \<Rightarrow> int" where
  "top_trim blk = blk_bounds blk ! 0 ! 0"

definition bottom_trim :: "block \<Rightarrow> int" where
  "bottom_trim blk = blk_bounds blk ! 0 ! 1"

definition left_trim :: "block \<Rightarrow> int" where
  "left_trim blk = blk_bounds blk ! 1 ! 0"

definition right_trim :: "block \<Rightarrow> int" where
  "right_trim blk = blk_bounds blk ! 1 ! 1"

definition trimmed_region :: "block \<Rightarrow> (int \<times> int) set" where
  "trimmed_region blk =
     {blk_y blk + top_trim blk ..< blk_y blk + blk_height blk - bottom_trim blk}
     \<times> {blk_x blk + left_trim blk ..< blk_x blk + blk_width blk - right_trim blk}"

section \<open>SampleWindowWriter\<close>

text \<open>
  The destination is the rasterio dataset opened for writing, an external collaborator.
  It is modelled by the sequence of the windowed writes it has received:
  \<^verbatim>\<open>dst.write(raster, 1, window=((y0, y1), (x0, x1)))\<close>.
\<close>

record 'a write_call =
  wc_raster :: "'a raster"
  wc_indexes :: int
  wc_window :: "(int \<times> int) \<times> (int \<times> int)"

text \<open>
  The georeferencing attributes (transform, crs, nodata, dtype) are opaque values passed
  on to \<^verbatim>\<open>rasterio.open\<close>; they are kept together in \<open>sww_profile\<close>.
\<close>

record ('a, 'p) window_writer =
  sww_fp :: string
  sww_shape :: "int \<times> int"
  sww_profile :: 'p
  sww_dst :: "'a write_call list"

definition SampleWindowWriter_init :: "string \<Rightarrow> int \<times> int \<Rightarrow> 'p \<Rightarrow> ('a, 'p) window_writer" where
  "SampleWindowWriter_init fp shape profile =
     \<lparr>sww_fp = fp, sww_shape = shape, sww_profile = profile, sww_dst = []\<rparr>"

definition dst_write ::
  "'a raster \<Rightarrow> int \<Rightarrow> (int \<times> int) \<times> (int \<times> int) \<Rightarrow> ('a, 'p) window_writer
     \<Rightarrow> ('a, 'p) window_writer" where
  "dst_write raster indexes window self =
     self\<lparr>sww_dst := sww_dst self @
       [\<lparr>wc_raster = raster, wc_indexes = indexes, wc_window = window\<rparr>]\<rparr>"

text \<open>\<^verbatim>\<open>bounds[i][j]\<close> on the nested list.\<close>

definition bounds_at :: "int list list \<Rightarrow> nat \<Rightarrow> nat \<Rightarrow> error + int" where
  "bounds_at bounds i j = bind_err (py_index bounds i) (\<lambda>row. py_index row j)"

text \<open>
  \<^verbatim>\<open>write(self, raster, x, y, width, height, bounds=None)\<close>. The test
  \<^verbatim>\<open>if bounds:\<close> fails for \<^verbatim>\<open>None\<close> and for the empty list. The method has no
  \<^verbatim>\<open>return\<close>: its value is \<^verbatim>\<open>None\<close>, the unit here, next to the updated writer.
\<close>

definition SampleWindowWriter_write ::
  "'a raster \<Rightarrow> int \<Rightarrow> int \<Rightarrow> int \<Rightarrow> int \<Rightarrow> int list list option
     \<Rightarrow> ('a, 'p) window_writer \<Rightarrow> error + (unit \<times> ('a, 'p) window_writer)" where
  "SampleWindowWriter_write raster x y width height bounds self =
     (if bounds \<noteq> None \<and> bounds \<noteq> Some [] then
        bind_err (bounds_at (the bounds) 0 0) (\<lambda>b00.
        bind_err (bounds_at (the bounds) 0 1) (\<lambda>b01.
        bind_err (bounds_at (the bounds) 1 0) (\<lambda>b10.
        bind_err (bounds_at (the bounds) 1 1) (\<lambda>b11.
          let raster' = slice2 b00 (shape0 raster - b01) b10 (shape1 raster - b11) raster;
              x' = x + b10;
              y' = y + b00;
              width' = width - b11 - b10;
              height' = height - b01 - b00
          in Inr ((), dst_write raster' 1 ((y', y' + height'), (x', x' + width')) self)))))
      else Inr ((), dst_write raster 1 ((y, y + height), (x, x + width)) self))"

section \<open>SampleCollectionWindowWriter\<close>

record ('a, 'p) collection_writer =
  scww_fps :: "string list"
  scww_channels :: "string list"
  scww_shape :: "int \<times> int"
  scww_profile :: 'p
  scww_writers :: "('a, 'p) window_writer list"

text \<open>\<^verbatim>\<open>open\<close>: one single-channel writer for each file path.\<close>

definition SampleCollectionWindowWriter_open ::
  "string list \<Rightarrow> int \<times> int \<Rightarrow> 'p \<Rightarrow> ('a, 'p) window_writer list" where
  "SampleCollectionWindowWriter_open fps shape profile =
     map (\<lambda>fp. SampleWindowWriter_init fp shape profile) fps"

text \<open>
  The body of \<^verbatim>\<open>for i in range(len(self.channels))\<close>:
  \<^verbatim>\<open>self.writers[i].write(raster[i], x, y, height, width, bounds=bounds)\<close>. The
  arguments after the raster are positional, so they reach the parameters
  \<^verbatim>\<open>x, y, width, height\<close> of the single-channel method in this order.
\<close>

fun collection_write_loop ::
  "'a raster list \<Rightarrow> int \<Rightarrow> int \<Rightarrow> int \<Rightarrow> int \<Rightarrow> int list list option \<Rightarrow> nat list
     \<Rightarrow> ('a, 'p) window_writer list \<Rightarrow> error + ('a, 'p) window_writer list" where
  "collection_write_loop raster x y height width bounds [] writers = Inr writers"
| "collection_write_loop raster x y height width bounds (i # is) writers =
     bind_err (py_index writers i) (\<lambda>writer.
     bind_err (py_index raster i) (\<lambda>raster_i.
     bind_err (SampleWindowWriter_write raster_i x y height width bounds writer) (\<lambda>(_, writer').
       collection_write_loop raster x y height width bounds is (writers[i := writer']))))"

definition SampleCollectionWindowWriter_write ::
  "'a raster list \<Rightarrow> int \<Rightarrow> int \<Rightarrow> int \<Rightarrow> int \<Rightarrow> int list list option
     \<Rightarrow> ('a, 'p) collection_writer \<Rightarrow> error + (unit \<times> ('a, 'p) collection_writer)" where
  "SampleCollectionWindowWriter_write raster x y height width bounds self =
     bind_err (collection_write_loop raster x y height width bounds
                 [0..<length (scww_channels self)] (scww_writers self))
       (\<lambda>writers. Inr ((), self\<lparr>scww_writers := writers\<rparr>))"

section \<open>Predictor\<close>

text \<open>
  \<^verbatim>\<open>predict\<close> evaluates the call \<^verbatim>\<open>NotImplemented('...')\<close> and raises its
  value; an exception of the call itself propagates instead.
\<close>

definition Predictor_predict :: "'s \<Rightarrow> 'k \<Rightarrow> error + 'r" where
  "Predictor_predict sample kwargs =
     bind_err (py_call Builtin_NotImplemented
                 ''You should implement the predict function in your inherited class'')
       (\<lambda>exc. Inl exc)"

section \<open>Specification-side notions\<close>

text \<open>The sampler over a raster of extent \<open>(H, W)\<close>, pure size \<open>(h, w)\<close>, bound \<open>b\<close>.\<close>

abbreviation sampler_on :: "int \<Rightarrow> int \<Rightarrow> int \<Rightarrow> int \<Rightarrow> int \<Rightarrow> string list \<Rightarrow> sampler_cfg" where
  "sampler_on H W h w b chs \<equiv>
     \<lparr>band_collection = \<lparr>bc_height = H, bc_width = W\<rparr>, sample_size = (h, w), bound = b,
      channels = chs\<rparr>"

text \<open>The number of values of \<^verbatim>\<open>range(start, stop, step)\<close> for a positive step.\<close>

definition range_count :: "int \<Rightarrow> int \<Rightarrow> int \<Rightarrow> nat" where
  "range_count start stop step = nat (- ((start - stop) div step))"

text \<open>The block the loops emit at \<open>(x, y)\<close>.\<close>

definition block_at :: "int \<Rightarrow> int \<Rightarrow> int \<Rightarrow> int \<Rightarrow> int \<Rightarrow> int \<Rightarrow> int \<Rightarrow> block" where
  "block_at b H W h w y x =
     \<lparr>blk_x = x, blk_y = y, blk_height = h + 2 * b, blk_width = w + 2 * b,
      blk_bounds = [[b, max b (y + (h + 2 * b) - H)], [b, max b (x + (w + 2 * b) - W)]]\<rparr>"

text \<open>What every emitted block satisfies, in terms of its own fields.\<close>

definition block_inv :: "int \<Rightarrow> int \<Rightarrow> int \<Rightarrow> int \<Rightarrow> int \<Rightarrow> block \<Rightarrow> bool" where
  "block_inv H W h w b blk \<longleftrightarrow>
     blk_height blk = h + 2 * b \<and> blk_width blk = w + 2 * b \<and>
     blk_bounds blk = [[b, max b (blk_y blk + blk_height blk - H)],
                       [b, max b (blk_x blk + blk_width blk - W)]]"

text \<open>The part of \<open>[0, n)\<close> that the \<open>k\<close>-th pure sample of size \<open>s\<close> covers.\<close>

definition pure_span :: "int \<Rightarrow> int \<Rightarrow> nat \<Rightarrow> int set" where
  "pure_span n s k = {int k * s ..< min ((int k + 1) * s) n}"

text \<open>
  Cropping as the specification words it: remove the first \<open>n_top\<close> rows, the last
  \<open>n_bottom\<close> rows, the first \<open>n_left\<close> columns and the last \<open>n_right\<close> columns.
\<close>

definition remove_first :: "int \<Rightarrow> 'a list \<Rightarrow> 'a list" where
  "remove_first n xs = drop (nat n) xs"

definition remove_last :: "int \<Rightarrow> 'a list \<Rightarrow> 'a list" where
  "remove_last n xs = take (length xs - nat n) xs"

definition crop_spec :: "int \<Rightarrow> int \<Rightarrow> int \<Rightarrow> int \<Rightarrow> 'a raster \<Rightarrow> 'a raster" where
  "crop_spec n_top n_bottom n_left n_right raster =
     map (\<lambda>row. remove_first n_left (remove_last n_right row))
       (remove_first n_top (remove_last n_bottom raster))"

section \<open>The values of a range\<close>

lemma range_count_step:
  assumes "0 < step" "i < stop"
  shows "range_count i stop step = Suc (range_count (i + step) stop step)"
proof -
  have "i + step - stop = (i - stop) + step" by simp
  then have e: "(i + step - stop) div step = (i - stop) div step + 1"
    using assms(1) by (metis div_add_self2 less_irrefl)
  have "(i - stop) div step < 0"
    using assms by (simp add: pos_imp_zdiv_neg_iff)
  then show ?thesis
    unfolding range_count_def e by simp
qed

lemma range_count_done:
  assumes "0 < step" "\<not> i < stop"
  shows "range_count i stop step = 0"
proof -
  have "0 \<le> (i - stop) div step"
    using assms by (simp add: pos_imp_zdiv_nonneg_iff)
  then show ?thesis unfolding range_count_def by simp
qed

lemma range_up_eq:
  "0 < step \<Longrightarrow>
   range_up i stop step = map (\<lambda>k. i + int k * step) [0..<range_count i stop step]"
proof (induction i stop step rule: range_up.induct)
  case (1 i stop step)
  show ?case
  proof (cases "i < stop")
    case True
    have "range_up i stop step = i # range_up (i + step) stop step"
      using True "1.prems" by (subst range_up.simps) simp
    also have "range_up (i + step) stop step
        = map (\<lambda>k. i + step + int k * step) [0..<range_count (i + step) stop step]"
      using "1.IH" True "1.prems" by simp
    also have "i # \<dots> = map (\<lambda>k. i + int k * step) [0..<Suc (range_count (i + step) stop step)]"
      by (simp add: upt_conv_Cons map_Suc_upt [symmetric] algebra_simps del: upt_Suc)
    finally show ?thesis
      using range_count_step [OF "1.prems" True] by simp
  next
    case False
    then show ?thesis
      using range_count_done [OF "1.prems" False] by (subst range_up.simps) simp
  qed
qed

lemma range_count_less_iff:
  assumes "0 < step"
  shows "k < range_count i stop step \<longleftrightarrow> i + int k * step < stop"
proof (induction k arbitrary: i)
  case 0
  show ?case
    using range_count_step [OF assms, of i stop] range_count_done [OF assms, of i stop]
    by (cases "i < stop") simp_all
next
  case (Suc k)
  show ?case
  proof (cases "i < stop")
    case True
    then show ?thesis
      using range_count_step [OF assms True] Suc [of "i + step"] by (simp add: algebra_simps)
  next
    case False
    have "0 \<le> (1 + int k) * step" using assms by simp
    with False have "\<not> i + int (Suc k) * step < stop" by (simp add: algebra_simps)
    then show ?thesis using range_count_done [OF assms False] by simp
  qed
qed

lemma range_count_ceiling:
  assumes "0 < step"
  shows "int (range_count i stop step) = max 0 \<lceil>real_of_int (stop - i) / real_of_int step\<rceil>"
proof -
  have "\<lceil>real_of_int (stop - i) / real_of_int step\<rceil> = - ((- (stop - i)) div step)"
    by (rule ceiling_divide_eq_div)
  then show ?thesis unfolding range_count_def by (simp add: max_def)
qed

section \<open>The loops of \<^verbatim>\<open>_compute_blocks\<close>\<close>

lemma inner_loop_eq:
  "inner_loop self height width y xs acc =
     acc @ map (\<lambda>x. \<lparr>blk_x = x, blk_y = y, blk_height = height, blk_width = width,
        blk_bounds = [[bound self, max (bound self) (y + height - bc_height (band_collection self))],
                      [bound self, max (bound self) (x + width - bc_width (band_collection self))]]\<rparr>) xs"
  by (induction xs arbitrary: acc) (simp_all add: Let_def)

lemma outer_loop_eq:
  assumes "0 < w"
  shows "outer_loop self height width w ys acc =
     Inr (acc @ concat (map (\<lambda>y. map (\<lambda>x. \<lparr>blk_x = x, blk_y = y, blk_height = height, blk_width = width,
        blk_bounds = [[bound self, max (bound self) (y + height - bc_height (band_collection self))],
                      [bound self, max (bound self) (x + width - bc_width (band_collection self))]]\<rparr>)
          (range_up (- bound self) (bc_width (band_collection self)) w)) ys))"
  using assms
  by (induction ys arbitrary: acc) (simp_all add: py_range_def inner_loop_eq)

lemma compute_blocks_eq:
  assumes "0 < h" "0 < w"
  shows "compute_blocks \<lparr>band_collection = \<lparr>bc_height = H, bc_width = W\<rparr>,
            sample_size = (h, w), bound = b, channels = chs\<rparr>
       = Inr (concat (map (\<lambda>y. map (block_at b H W h w y) (range_up (- b) W w))
                (range_up (- b) H h)))"
  using assms
  by (simp add: compute_blocks_def py_range_def outer_loop_eq block_at_def [abs_def])

lemma nth_concat_grid:
  assumes "i < length ys" "j < length xs"
  shows "concat (map (\<lambda>y. map (g y) xs) ys) ! (i * length xs + j) = g (ys ! i) (xs ! j)"
  using assms
proof (induction ys arbitrary: i)
  case Nil
  then show ?case by simp
next
  case (Cons y ys)
  show ?case
  proof (cases i)
    case 0
    then show ?thesis using Cons.prems by (simp add: nth_append)
  next
    case (Suc i')
    then have "i * length xs + j = length xs + (i' * length xs + j)" by simp
    then show ?thesis using Cons.IH [of i'] Cons.prems Suc by (simp add: nth_append)
  qed
qed

lemma length_concat_grid:
  "length (concat (map (\<lambda>y. map (g y) xs) ys)) = length ys * length xs"
  by (induction ys) simp_all

lemma blocks_nth:
  assumes "0 < h" "0 < w"
    and "i < range_count (- b) H h" "j < range_count (- b) W w"
  shows "concat (map (\<lambda>y. map (block_at b H W h w y) (range_up (- b) W w)) (range_up (- b) H h))
           ! (i * range_count (- b) W w + j)
         = block_at b H W h w (- b + int i * h) (- b + int j * w)"
proof -
  let ?xs = "range_up (- b) W w" and ?ys = "range_up (- b) H h"
  have lx: "length ?xs = range_count (- b) W w" and ly: "length ?ys = range_count (- b) H h"
    using assms(1,2) by (simp_all add: range_up_eq)
  have "concat (map (\<lambda>y. map (block_at b H W h w y) ?xs) ?ys) ! (i * length ?xs + j)
          = block_at b H W h w (?ys ! i) (?xs ! j)"
    using assms(3,4) lx ly by (intro nth_concat_grid) simp_all
  moreover have "?ys ! i = - b + int i * h"
    using assms(1,3) by (simp add: range_up_eq)
  moreover have "?xs ! j = - b + int j * w"
    using assms(2,4) by (simp add: range_up_eq)
  ultimately show ?thesis using lx by simp
qed

lemma blocks_length:
  assumes "0 < h" "0 < w"
  shows "length (concat (map (\<lambda>y. map (block_at b H W h w y) (range_up (- b) W w))
           (range_up (- b) H h))) = range_count (- b) H h * range_count (- b) W w"
  using assms by (simp only: length_concat_grid) (simp add: range_up_eq)

lemma set_range_up:
  "0 < step \<Longrightarrow>
   set (range_up i stop step) = (\<lambda>k. i + int k * step) ` {..<range_count i stop step}"
  by (simp add: range_up_eq atLeast0LessThan)

lemma blocks_set:
  assumes "0 < h" "0 < w"
  shows "set (concat (map (\<lambda>y. map (block_at b H W h w y) (range_up (- b) W w))
           (range_up (- b) H h)))
         = (\<lambda>(i, j). block_at b H W h w (- b + int i * h) (- b + int j * w))
             ` ({..<range_count (- b) H h} \<times> {..<range_count (- b) W w})"
  using assms by (force simp: set_range_up)

lemma trimmed_region_block_at:
  "trimmed_region (block_at b H W h w (- b + int i * h) (- b + int j * w))
     = pure_span H h i \<times> pure_span W w j"
proof -
  have "- b + int i * h + (h + 2 * b) - max b (- b + int i * h + (h + 2 * b) - H)
          = min ((int i + 1) * h) H"
    by (simp add: max_def min_def algebra_simps)
  moreover have "- b + int j * w + (w + 2 * b) - max b (- b + int j * w + (w + 2 * b) - W)
          = min ((int j + 1) * w) W"
    by (simp add: max_def min_def algebra_simps)
  ultimately show ?thesis
    by (simp add: trimmed_region_def block_at_def top_trim_def bottom_trim_def
        left_trim_def right_trim_def pure_span_def)
qed

lemma pure_span_disjoint:
  assumes "0 < s" "k \<noteq> k'"
  shows "pure_span n s k \<inter> pure_span n s k' = {}"
proof -
  have aux: "pure_span n s i \<inter> pure_span n s i' = {}" if "i < i'" for i i'
  proof -
    from that have "int i + 1 \<le> int i'" by simp
    then have "(int i + 1) * s \<le> int i' * s"
      using assms(1) by (intro mult_right_mono) simp_all
    then show ?thesis by (auto simp: pure_span_def)
  qed
  from assms(2) consider "k < k'" | "k' < k" by linarith
  then show ?thesis using aux [of k k'] aux [of k' k] by cases auto
qed

lemma pure_span_cover:
  assumes "0 < s" "0 \<le> b"
  shows "(\<Union>k<range_count (- b) n s. pure_span n s k) = {0..<n}"
proof (rule set_eqI, rule iffI)
  fix r
  assume "r \<in> (\<Union>k<range_count (- b) n s. pure_span n s k)"
  then obtain k where "int k * s \<le> r" "r < n" by (auto simp: pure_span_def)
  moreover have "0 \<le> int k * s" using assms(1) by simp
  ultimately show "r \<in> {0..<n}" by simp
next
  fix r
  assume r: "r \<in> {0..<n}"
  define k where "k = nat (r div s)"
  have "0 \<le> r div s" using r assms(1) by (simp add: pos_imp_zdiv_nonneg_iff)
  then have k: "int k = r div s" by (simp add: k_def)
  have d: "r div s * s + r mod s = r" by simp
  have m: "0 \<le> r mod s" "r mod s < s" using assms(1) by simp_all
  have lo: "int k * s \<le> r" unfolding k using d m by linarith
  have "(r div s + 1) * s = r div s * s + s" by (simp add: algebra_simps)
  then have hi: "r < (int k + 1) * s" unfolding k using d m by linarith
  have "- b + int k * s < n" using lo r assms(2) by simp
  then have "k < range_count (- b) n s" using assms(1) by (simp add: range_count_less_iff)
  moreover have "r \<in> pure_span n s k" using lo hi r by (simp add: pure_span_def)
  ultimately show "r \<in> (\<Union>k<range_count (- b) n s. pure_span n s k)" by blast
qed

lemma grid_index_neq:
  fixes p q n :: nat
  assumes "p \<noteq> q"
  shows "p div n \<noteq> q div n \<or> p mod n \<noteq> q mod n"
  using assms by (metis div_mult_mod_eq)

lemma outer_loop_inv:
  assumes "outer_loop self height width w ys acc = Inr bs"
    and "\<forall>blk\<in>set acc. P blk"
    and "\<And>x y. P \<lparr>blk_x = x, blk_y = y, blk_height = height, blk_width = width,
        blk_bounds = [[bound self, max (bound self) (y + height - bc_height (band_collection self))],
                      [bound self, max (bound self) (x + width - bc_width (band_collection self))]]\<rparr>"
  shows "\<forall>blk\<in>set bs. P blk"
  using assms(1,2)
proof (induction ys arbitrary: acc)
  case Nil
  then show ?case by simp
next
  case (Cons y ys)
  from Cons.prems(1) obtain xs where
    xs: "py_range (- bound self) (bc_width (band_collection self)) w = Inr xs"
    and rest: "outer_loop self height width w ys (inner_loop self height width y xs acc) = Inr bs"
    by (auto split: sum.splits)
  have "\<forall>blk\<in>set (inner_loop self height width y xs acc). P blk"
    using Cons.prems(2) assms(3) by (auto simp: inner_loop_eq)
  with rest show ?case by (rule Cons.IH)
qed

lemma compute_blocks_inv:
  assumes "compute_blocks (sampler_on H W h w b chs) = Inr bs" "blk \<in> set bs"
  shows "block_inv H W h w b blk"
proof -
  from assms(1) obtain ys where
    "outer_loop (sampler_on H W h w b chs) (h + 2 * b) (w + 2 * b) w ys [] = Inr bs"
    by (auto simp: compute_blocks_def split: sum.splits)
  then have "\<forall>blk\<in>set bs. block_inv H W h w b blk"
    by (rule outer_loop_inv) (simp_all add: block_inv_def)
  with assms(2) show ?thesis by blast
qed

section \<open>Concrete plans\<close>

lemma blocks_5_2_1:
  "compute_blocks (sampler_on 5 5 2 2 1 chs) = Inr
     [\<lparr>blk_x = - 1, blk_y = - 1, blk_height = 4, blk_width = 4, blk_bounds = [[1, 1], [1, 1]]\<rparr>,
      \<lparr>blk_x = 1, blk_y = - 1, blk_height = 4, blk_width = 4, blk_bounds = [[1, 1], [1, 1]]\<rparr>,
      \<lparr>blk_x = 3, blk_y = - 1, blk_height = 4, blk_width = 4, blk_bounds = [[1, 1], [1, 2]]\<rparr>,
      \<lparr>blk_x = - 1, blk_y = 1, blk_height = 4, blk_width = 4, blk_bounds = [[1, 1], [1, 1]]\<rparr>,
      \<lparr>blk_x = 1, blk_y = 1, blk_height = 4, blk_width = 4, blk_bounds = [[1, 1], [1, 1]]\<rparr>,
      \<lparr>blk_x = 3, blk_y = 1, blk_height = 4, blk_width = 4, blk_bounds = [[1, 1], [1, 2]]\<rparr>,
      \<lparr>blk_x = - 1, blk_y = 3, blk_height = 4, blk_width = 4, blk_bounds = [[1, 2], [1, 1]]\<rparr>,
      \<lparr>blk_x = 1, blk_y = 3, blk_height = 4, blk_width = 4, blk_bounds = [[1, 2], [1, 1]]\<rparr>,
      \<lparr>blk_x = 3, blk_y = 3, blk_height = 4, blk_width = 4, blk_bounds = [[1, 2], [1, 2]]\<rparr>]"
  by (simp add: compute_blocks_def py_range_def range_up.simps)

lemma blocks_3_2_1:
  "compute_blocks (sampler_on 3 3 2 2 1 chs) = Inr
     [\<lparr>blk_x = - 1, blk_y = - 1, blk_height = 4, blk_width = 4, blk_bounds = [[1, 1], [1, 1]]\<rparr>,
      \<lparr>blk_x = 1, blk_y = - 1, blk_height = 4, blk_width = 4, blk_bounds = [[1, 1], [1, 2]]\<rparr>,
      \<lparr>blk_x = - 1, blk_y = 1, blk_height = 4, blk_width = 4, blk_bounds = [[1, 2], [1, 1]]\<rparr>,
      \<lparr>blk_x = 1, blk_y = 1, blk_height = 4, blk_width = 4, blk_bounds = [[1, 2], [1, 2]]\<rparr>]"
  by (simp add: compute_blocks_def py_range_def range_up.simps)

lemma blocks_3_2_2_first:
  "\<not> isl (compute_blocks (sampler_on 3 3 2 2 2 chs)) \<and>
   0 < length (projr (compute_blocks (sampler_on 3 3 2 2 2 chs))) \<and>
   projr (compute_blocks (sampler_on 3 3 2 2 2 chs)) ! 0 =
     \<lparr>blk_x = - 2, blk_y = - 2, blk_height = 6, blk_width = 6, blk_bounds = [[2, 2], [2, 2]]\<rparr>"
  by (simp add: compute_blocks_def py_range_def range_up.simps)

section \<open>Properties of the block plan\<close>

text \<open>
  Claim C1. For a pure sample size \<open>(h, w)\<close> with \<open>h, w > 0\<close> and a bound \<open>b \<ge> 0\<close>,
  \<^verbatim>\<open>_compute_blocks\<close> returns a list of blocks whose trimmed write regions
  \<open>[y + top, y + height - bottom) \<times> [x + left, x + width - right)\<close> are pairwise
  disjoint (blocks at different positions of the list never share a pixel) and whose
  union is exactly \<open>[0, H) \<times> [0, W)\<close>. This holds for every extent \<open>(H, W)\<close>, so in
  particular for \<open>H, W > 0\<close>.
\<close>

theorem compute_blocks_tiles_raster:
  assumes "0 < h" "0 < w" "0 \<le> b"
  shows "\<exists>bs. compute_blocks (sampler_on H W h w b chs) = Inr bs \<and>
           (\<forall>p<length bs. \<forall>q<length bs. p \<noteq> q \<longrightarrow>
                trimmed_region (bs ! p) \<inter> trimmed_region (bs ! q) = {}) \<and>
           (\<Union>blk\<in>set bs. trimmed_region blk) = {0..<H} \<times> {0..<W}"
proof -
  let ?ny = "range_count (- b) H h" and ?nx = "range_count (- b) W w"
  let ?bs = "concat (map (\<lambda>y. map (block_at b H W h w y) (range_up (- b) W w))
               (range_up (- b) H h))"
  have eq: "compute_blocks (sampler_on H W h w b chs) = Inr ?bs"
    using assms(1,2) by (rule compute_blocks_eq)
  have len: "length ?bs = ?ny * ?nx"
    using assms(1,2) by (rule blocks_length)
  have reg: "trimmed_region (?bs ! p) = pure_span H h (p div ?nx) \<times> pure_span W w (p mod ?nx)"
    if "p < ?ny * ?nx" for p
  proof -
    from that have "0 < ?nx" by (cases "?nx") simp_all
    then have j: "p mod ?nx < ?nx" by simp
    have i: "p div ?nx < ?ny" using that by (simp add: less_mult_imp_div_less)
    have idx: "p div ?nx * ?nx + p mod ?nx = p" by simp
    have "?bs ! (p div ?nx * ?nx + p mod ?nx)
            = block_at b H W h w (- b + int (p div ?nx) * h) (- b + int (p mod ?nx) * w)"
      using assms(1,2) i j by (rule blocks_nth)
    then have "?bs ! p
            = block_at b H W h w (- b + int (p div ?nx) * h) (- b + int (p mod ?nx) * w)"
      unfolding idx .
    then show ?thesis by (simp only: trimmed_region_block_at)
  qed
  have disj: "trimmed_region (?bs ! p) \<inter> trimmed_region (?bs ! q) = {}"
    if "p < length ?bs" "q < length ?bs" "p \<noteq> q" for p q
  proof -
    from that(3) have "p div ?nx \<noteq> q div ?nx \<or> p mod ?nx \<noteq> q mod ?nx"
      by (rule grid_index_neq)
    then have "pure_span H h (p div ?nx) \<inter> pure_span H h (q div ?nx) = {}
        \<or> pure_span W w (p mod ?nx) \<inter> pure_span W w (q mod ?nx) = {}"
      using pure_span_disjoint [OF assms(1)] pure_span_disjoint [OF assms(2)] by blast
    moreover have "trimmed_region (?bs ! p)
        = pure_span H h (p div ?nx) \<times> pure_span W w (p mod ?nx)"
      using that(1) len by (simp add: reg)
    moreover have "trimmed_region (?bs ! q)
        = pure_span H h (q div ?nx) \<times> pure_span W w (q mod ?nx)"
      using that(2) len by (simp add: reg)
    ultimately show ?thesis by (auto simp only: Times_Int_Times Sigma_empty1 Sigma_empty2)
  qed
  have "(\<Union>blk\<in>set ?bs. trimmed_region blk)
          = (\<Union>i<?ny. \<Union>j<?nx. trimmed_region
               (block_at b H W h w (- b + int i * h) (- b + int j * w)))"
    unfolding blocks_set [OF assms(1,2)]
    by (auto simp only: UN_iff image_iff mem_Sigma_iff lessThan_iff prod.case)
  also have "\<dots> = (\<Union>i<?ny. \<Union>j<?nx. pure_span H h i \<times> pure_span W w j)"
    by (simp only: trimmed_region_block_at)
  also have "\<dots> = (\<Union>i<?ny. pure_span H h i) \<times> (\<Union>j<?nx. pure_span W w j)"
    by blast
  also have "\<dots> = {0..<H} \<times> {0..<W}"
    using assms by (simp only: pure_span_cover)
  finally have cover: "(\<Union>blk\<in>set ?bs. trimmed_region blk) = {0..<H} \<times> {0..<W}" .
  show ?thesis
  proof (intro exI conjI allI impI)
    show "compute_blocks (sampler_on H W h w b chs) = Inr ?bs" by (rule eq)
    show "trimmed_region (?bs ! p) \<inter> trimmed_region (?bs ! q) = {}"
      if "p < length ?bs" "q < length ?bs" "p \<noteq> q" for p q
      using that by (rule disj)
    show "(\<Union>blk\<in>set ?bs. trimmed_region blk) = {0..<H} \<times> {0..<W}" by (rule cover)
  qed
qed

theorem compute_blocks_tiles_raster_witness:
  "(0::int) < 2 \<and> (0::int) < 2 \<and> (0::int) \<le> 1 \<and>
   (\<exists>bs. compute_blocks (sampler_on 3 3 2 2 1 []) = Inr bs \<and>
      (\<forall>p<length bs. \<forall>q<length bs. p \<noteq> q \<longrightarrow>
          trimmed_region (bs ! p) \<inter> trimmed_region (bs ! q) = {}) \<and>
      (\<Union>blk\<in>set bs. trimmed_region blk) = {0..<3} \<times> {0..<3})"
proof -
  have "\<exists>bs. compute_blocks (sampler_on 3 3 2 2 1 []) = Inr bs \<and>
      (\<forall>p<length bs. \<forall>q<length bs. p \<noteq> q \<longrightarrow>
          trimmed_region (bs ! p) \<inter> trimmed_region (bs ! q) = {}) \<and>
      (\<Union>blk\<in>set bs. trimmed_region blk) = {0..<3} \<times> {0..<3}"
    by (rule compute_blocks_tiles_raster) simp_all
  then show ?thesis by simp
qed


text \<open>
  Claim C3. For \<open>h, w > 0\<close>, \<^verbatim>\<open>_compute_blocks\<close> returns the blocks in row-major
  order: with \<open>ny\<close> values \<open>y = -b + i * h\<close> (exactly those below \<open>H\<close>) in the outer
  loop and \<open>nx\<close> values \<open>x = -b + j * w\<close> (exactly those below \<open>W\<close>) in the inner
  loop, the list has \<open>ny * nx\<close> entries and the entry at position \<open>i * nx + j\<close> is the
  block at \<open>(x, y)\<close> with height \<open>h + 2b\<close>, width \<open>w + 2b\<close>, top and left trim \<open>b\<close>,
  bottom trim \<open>max(b, y + height - H)\<close> and right trim \<open>max(b, x + width - W)\<close>.
\<close>

theorem compute_blocks_row_major:
  assumes "0 < h" "0 < w"
  shows "\<exists>bs. compute_blocks (sampler_on H W h w b chs) = Inr bs \<and>
           length bs = range_count (- b) H h * range_count (- b) W w \<and>
           (\<forall>k. k < range_count (- b) H h \<longleftrightarrow> - b + int k * h < H) \<and>
           (\<forall>k. k < range_count (- b) W w \<longleftrightarrow> - b + int k * w < W) \<and>
           (\<forall>i<range_count (- b) H h. \<forall>j<range_count (- b) W w.
              bs ! (i * range_count (- b) W w + j) =
                \<lparr>blk_x = - b + int j * w, blk_y = - b + int i * h,
                 blk_height = h + 2 * b, blk_width = w + 2 * b,
                 blk_bounds = [[b, max b (- b + int i * h + (h + 2 * b) - H)],
                               [b, max b (- b + int j * w + (w + 2 * b) - W)]]\<rparr>)"
proof (intro exI conjI allI impI)
  let ?bs = "concat (map (\<lambda>y. map (block_at b H W h w y) (range_up (- b) W w))
               (range_up (- b) H h))"
  show "compute_blocks (sampler_on H W h w b chs) = Inr ?bs"
    using assms by (rule compute_blocks_eq)
  show "length ?bs = range_count (- b) H h * range_count (- b) W w"
    using assms by (rule blocks_length)
  show "k < range_count (- b) H h \<longleftrightarrow> - b + int k * h < H" for k
    using assms(1) by (rule range_count_less_iff)
  show "k < range_count (- b) W w \<longleftrightarrow> - b + int k * w < W" for k
    using assms(2) by (rule range_count_less_iff)
  show "?bs ! (i * range_count (- b) W w + j) =
        \<lparr>blk_x = - b + int j * w, blk_y = - b + int i * h,
         blk_height = h + 2 * b, blk_width = w + 2 * b,
         blk_bounds = [[b, max b (- b + int i * h + (h + 2 * b) - H)],
                       [b, max b (- b + int j * w + (w + 2 * b) - W)]]\<rparr>"
    if "i < range_count (- b) H h" "j < range_count (- b) W w" for i j
    unfolding blocks_nth [OF assms that] block_at_def ..
qed

theorem compute_blocks_row_major_witness:
  "(0::int) < 2 \<and> (0::int) < 2 \<and>
   (\<exists>bs. compute_blocks (sampler_on 3 3 2 2 1 []) = Inr bs \<and>
           length bs = range_count (- 1) 3 2 * range_count (- 1) 3 2 \<and>
           (\<forall>k. k < range_count (- 1) 3 2 \<longleftrightarrow> - 1 + int k * 2 < 3) \<and>
           (\<forall>k. k < range_count (- 1) 3 2 \<longleftrightarrow> - 1 + int k * 2 < 3) \<and>
           (\<forall>i<range_count (- 1) 3 2. \<forall>j<range_count (- 1) 3 2.
              bs ! (i * range_count (- 1) 3 2 + j) =
                \<lparr>blk_x = - 1 + int j * 2, blk_y = - 1 + int i * 2,
                 blk_height = 2 + 2 * 1, blk_width = 2 + 2 * 1,
                 blk_bounds = [[1, max 1 (- 1 + int i * 2 + (2 + 2 * 1) - 3)],
                               [1, max 1 (- 1 + int j * 2 + (2 + 2 * 1) - 3)]]\<rparr>))"
proof -
  have h: "(0::int) < 2" by simp
  show ?thesis
    using compute_blocks_row_major [OF h h, of 3 3 1 "[]"] h by (intro conjI) simp_all
qed


text \<open>
  Claim C9. For \<open>H, W, h, w > 0\<close> and \<open>b \<ge> 0\<close> the sampler is constructed and its
  \<^verbatim>\<open>len\<close> is \<open>ceil((H + b) / h) * ceil((W + b) / w)\<close>.
\<close>

theorem sampler_len_ceiling:
  assumes "0 < H" "0 < W" "0 < h" "0 < w" "0 \<le> b"
  shows "\<exists>s. SequentialSampler_init \<lparr>bc_height = H, bc_width = W\<rparr> chs (h, w) b = Inr s \<and>
           SequentialSampler_len s =
             \<lceil>real_of_int (H + b) / real_of_int h\<rceil> * \<lceil>real_of_int (W + b) / real_of_int w\<rceil>"
proof -
  let ?bs = "concat (map (\<lambda>y. map (block_at b H W h w y) (range_up (- b) W w))
               (range_up (- b) H h))"
  have eq: "compute_blocks (sampler_on H W h w b chs) = Inr ?bs"
    using assms(3,4) by (rule compute_blocks_eq)
  have len: "length ?bs = range_count (- b) H h * range_count (- b) W w"
    using assms(3,4) by (rule blocks_length)
  have "0 \<le> real_of_int (H + b) / real_of_int h" using assms by simp
  then have "0 \<le> \<lceil>real_of_int (H + b) / real_of_int h\<rceil>" by linarith
  then have ny: "int (range_count (- b) H h) = \<lceil>real_of_int (H + b) / real_of_int h\<rceil>"
    using range_count_ceiling [OF assms(3), of "- b" H] by simp
  have "0 \<le> real_of_int (W + b) / real_of_int w" using assms by simp
  then have "0 \<le> \<lceil>real_of_int (W + b) / real_of_int w\<rceil>" by linarith
  then have nx: "int (range_count (- b) W w) = \<lceil>real_of_int (W + b) / real_of_int w\<rceil>"
    using range_count_ceiling [OF assms(4), of "- b" W] by simp
  let ?s = "\<lparr>band_collection = \<lparr>bc_height = H, bc_width = W\<rparr>, sample_size = (h, w),
             bound = b, channels = chs, blocks = ?bs\<rparr>"
  have "SequentialSampler_init \<lparr>bc_height = H, bc_width = W\<rparr> chs (h, w) b = Inr ?s"
    unfolding SequentialSampler_init_def eq by simp
  moreover have "SequentialSampler_len ?s =
      \<lceil>real_of_int (H + b) / real_of_int h\<rceil> * \<lceil>real_of_int (W + b) / real_of_int w\<rceil>"
    unfolding SequentialSampler_len_def by (simp only: sampler.simps len of_nat_mult ny nx)
  ultimately show ?thesis by (intro exI conjI)
qed

theorem sampler_len_ceiling_witness:
  "(0::int) < 5 \<and> (0::int) < 2 \<and> (0::int) \<le> 1 \<and>
   (\<exists>s. SequentialSampler_init \<lparr>bc_height = 5, bc_width = 5\<rparr> [] (2, 2) 1 = Inr s \<and>
        SequentialSampler_len s = 9)"
proof -
  have "\<exists>s. SequentialSampler_init \<lparr>bc_height = 5, bc_width = 5\<rparr> [] (2, 2) 1 = Inr s \<and>
           SequentialSampler_len s =
             \<lceil>real_of_int (5 + 1) / real_of_int 2\<rceil> * \<lceil>real_of_int (5 + 1) / real_of_int 2\<rceil>"
    by (rule sampler_len_ceiling) simp_all
  then show ?thesis by simp
qed


text \<open>
  Claim C5. With a bound \<open>b \<ge> 0\<close> (the data model's non-negative margin), every block
  that \<^verbatim>\<open>_compute_blocks\<close> produces and whose read window ends inside the raster
  on the right and at the bottom (\<open>x + width \<le> W\<close> and \<open>y + height \<le> H\<close>) has
  \<^verbatim>\<open>bounds == [[b, b], [b, b]]\<close>.
\<close>

theorem interior_block_bounds:
  assumes "0 \<le> b"
    and "compute_blocks (sampler_on H W h w b chs) = Inr bs" "blk \<in> set bs"
    and "blk_x blk + blk_width blk \<le> W" "blk_y blk + blk_height blk \<le> H"
  shows "blk_bounds blk = [[b, b], [b, b]]"
proof -
  have "block_inv H W h w b blk" using assms(2,3) by (rule compute_blocks_inv)
  then have bnds: "blk_bounds blk = [[b, max b (blk_y blk + blk_height blk - H)],
                       [b, max b (blk_x blk + blk_width blk - W)]]"
    unfolding block_inv_def by (elim conjE)
  have "max b (blk_y blk + blk_height blk - H) = b" using assms(1,5) by linarith
  moreover have "max b (blk_x blk + blk_width blk - W) = b" using assms(1,4) by linarith
  ultimately show ?thesis using bnds by (simp only:)
qed

theorem interior_block_bounds_witness:
  "(0::int) \<le> 1 \<and>
   \<not> isl (compute_blocks (sampler_on 3 3 2 2 1 [])) \<and>
   hd (projr (compute_blocks (sampler_on 3 3 2 2 1 []))) \<in> set (projr (compute_blocks (sampler_on 3 3 2 2 1 []))) \<and>
   blk_x (hd (projr (compute_blocks (sampler_on 3 3 2 2 1 [])))) = - 1 \<and>
   blk_width (hd (projr (compute_blocks (sampler_on 3 3 2 2 1 [])))) = 4 \<and>
   blk_y (hd (projr (compute_blocks (sampler_on 3 3 2 2 1 [])))) = - 1 \<and>
   blk_height (hd (projr (compute_blocks (sampler_on 3 3 2 2 1 [])))) = 4 \<and>
   blk_bounds (hd (projr (compute_blocks (sampler_on 3 3 2 2 1 [])))) = [[1, 1], [1, 1]]"
proof -
  let ?bs = "projr (compute_blocks (sampler_on 3 3 2 2 1 []))"
  have e: "compute_blocks (sampler_on 3 3 2 2 1 []) = Inr ?bs"
    by (simp add: blocks_3_2_1)
  have m: "hd ?bs \<in> set ?bs" by (simp add: blocks_3_2_1)
  have "blk_bounds (hd ?bs) = [[1, 1], [1, 1]]"
    by (rule interior_block_bounds [OF _ e m]) (simp_all add: blocks_3_2_1)
  then show ?thesis by (simp add: blocks_3_2_1)
qed


text \<open>
  Claim C6, amended. For every block that \<^verbatim>\<open>_compute_blocks\<close> produces and whose
  read window overhangs the bottom edge by at least the bound
  (\<open>y + height - H \<ge> b\<close>), \<open>y + height - bottom_trim = H\<close>; and for every block whose
  read window overhangs the right edge by at least the bound
  (\<open>x + width - W \<ge> b\<close>), \<open>x + width - right_trim = W\<close>.
\<close>

theorem overhang_trim_reaches_edge:
  assumes "compute_blocks (sampler_on H W h w b chs) = Inr bs" "blk \<in> set bs"
  shows "(b \<le> blk_y blk + blk_height blk - H \<longrightarrow>
            blk_y blk + blk_height blk - bottom_trim blk = H) \<and>
         (b \<le> blk_x blk + blk_width blk - W \<longrightarrow>
            blk_x blk + blk_width blk - right_trim blk = W)"
proof -
  have "block_inv H W h w b blk" using assms by (rule compute_blocks_inv)
  then have bnds: "blk_bounds blk = [[b, max b (blk_y blk + blk_height blk - H)],
                       [b, max b (blk_x blk + blk_width blk - W)]]"
    unfolding block_inv_def by (elim conjE)
  have bt: "bottom_trim blk = max b (blk_y blk + blk_height blk - H)"
    unfolding bottom_trim_def bnds by simp
  have rt: "right_trim blk = max b (blk_x blk + blk_width blk - W)"
    unfolding right_trim_def bnds by simp
  show ?thesis unfolding bt rt by linarith
qed

theorem overhang_trim_reaches_edge_witness:
  "\<not> isl (compute_blocks (sampler_on 3 3 2 2 1 [])) \<and>
   last (projr (compute_blocks (sampler_on 3 3 2 2 1 []))) \<in> set (projr (compute_blocks (sampler_on 3 3 2 2 1 []))) \<and>
   last (projr (compute_blocks (sampler_on 3 3 2 2 1 []))) =
     \<lparr>blk_x = 1, blk_y = 1, blk_height = 4, blk_width = 4, blk_bounds = [[1, 2], [1, 2]]\<rparr> \<and>
   (1::int) \<le> 1 + 4 - 3 \<and>
   blk_y (last (projr (compute_blocks (sampler_on 3 3 2 2 1 [])))) +
     blk_height (last (projr (compute_blocks (sampler_on 3 3 2 2 1 [])))) -
     bottom_trim (last (projr (compute_blocks (sampler_on 3 3 2 2 1 [])))) = 3 \<and>
   blk_x (last (projr (compute_blocks (sampler_on 3 3 2 2 1 [])))) +
     blk_width (last (projr (compute_blocks (sampler_on 3 3 2 2 1 [])))) -
     right_trim (last (projr (compute_blocks (sampler_on 3 3 2 2 1 [])))) = 3"
proof -
  let ?bs = "projr (compute_blocks (sampler_on 3 3 2 2 1 []))"
  have e: "compute_blocks (sampler_on 3 3 2 2 1 []) = Inr ?bs"
    by (simp add: blocks_3_2_1)
  have m: "last ?bs \<in> set ?bs" by (simp add: blocks_3_2_1)
  have l: "last ?bs = \<lparr>blk_x = 1, blk_y = 1, blk_height = 4, blk_width = 4, blk_bounds = [[1, 2], [1, 2]]\<rparr>"
    by (simp add: blocks_3_2_1)
  have "blk_y (last ?bs) + blk_height (last ?bs) - bottom_trim (last ?bs) = 3 \<and>
        blk_x (last ?bs) + blk_width (last ?bs) - right_trim (last ?bs) = 3"
    using overhang_trim_reaches_edge [OF e m] by (simp add: l)
  then show ?thesis using m l by (simp add: blocks_3_2_1)
qed

text \<open>
  Claim C6 as first stated (every block with \<open>y + height > H\<close> has
  \<open>y + height - bottom_trim = H\<close>) fails: for \<open>H = W = 3\<close>, \<open>h = w = 2\<close>, \<open>b = 2\<close> the
  first block has \<open>y = -2\<close> and \<open>height = 6\<close>, so its read window ends at row 4, beyond
  \<open>H = 3\<close>, but the overhang 1 is below the bound and the bottom trim stays 2: the
  trimmed region ends at row 2.
\<close>

theorem overhang_below_bound_counterexample:
  "\<not> isl (compute_blocks (sampler_on 3 3 2 2 2 [])) \<and>
   0 < length (projr (compute_blocks (sampler_on 3 3 2 2 2 []))) \<and>
   projr (compute_blocks (sampler_on 3 3 2 2 2 [])) ! 0 =
     \<lparr>blk_x = - 2, blk_y = - 2, blk_height = 6, blk_width = 6, blk_bounds = [[2, 2], [2, 2]]\<rparr> \<and>
   3 < blk_y (projr (compute_blocks (sampler_on 3 3 2 2 2 [])) ! 0)
       + blk_height (projr (compute_blocks (sampler_on 3 3 2 2 2 [])) ! 0) \<and>
   blk_y (projr (compute_blocks (sampler_on 3 3 2 2 2 [])) ! 0)
     + blk_height (projr (compute_blocks (sampler_on 3 3 2 2 2 [])) ! 0)
     - bottom_trim (projr (compute_blocks (sampler_on 3 3 2 2 2 [])) ! 0) \<noteq> 3"
  using blocks_3_2_2_first [of "[]"] by (simp add: bottom_trim_def)

text \<open>
  Claim C7. For \<open>H = W = 5\<close>, \<open>h = w = 2\<close>, \<open>b = 1\<close>: every block has a 4 by 4 read
  window; there is a block at \<open>x = -1, y = -1\<close> and its right trim is
  \<open>max(1, -1 + 4 - 5) = 1\<close> and its bottom trim is 1; the last row \<open>y = 3\<close> and the last
  column \<open>x = 3\<close> are not empty, every block of the last row has bottom trim above 1 and
  every block of the last column has right trim above 1.
\<close>

theorem scenario_5_2_1:
  "\<exists>bs. compute_blocks (sampler_on 5 5 2 2 1 chs) = Inr bs \<and>
     (\<forall>blk\<in>set bs. blk_height blk = 4 \<and> blk_width blk = 4) \<and>
     (\<exists>blk\<in>set bs. blk_x blk = - 1 \<and> blk_y blk = - 1) \<and>
     (\<forall>blk\<in>set bs. blk_x blk = - 1 \<and> blk_y blk = - 1 \<longrightarrow>
        right_trim blk = max 1 (- 1 + 4 - 5) \<and> right_trim blk = 1 \<and> bottom_trim blk = 1) \<and>
     (\<exists>blk\<in>set bs. blk_y blk = 3) \<and>
     (\<forall>blk\<in>set bs. blk_y blk = 3 \<longrightarrow> 1 < bottom_trim blk) \<and>
     (\<exists>blk\<in>set bs. blk_x blk = 3) \<and>
     (\<forall>blk\<in>set bs. blk_x blk = 3 \<longrightarrow> 1 < right_trim blk)"
  by (simp add: blocks_5_2_1 right_trim_def bottom_trim_def)

theorem scenario_5_2_1_witness:
  "\<lparr>blk_x = 3, blk_y = 3, blk_height = 4, blk_width = 4, blk_bounds = [[1, 2], [1, 2]]\<rparr>
     \<in> set (projr (compute_blocks (sampler_on 5 5 2 2 1 []))) \<and>
   1 < bottom_trim \<lparr>blk_x = 3, blk_y = 3, blk_height = 4, blk_width = 4,
                     blk_bounds = [[1, 2], [1, 2]]\<rparr> \<and>
   1 < right_trim \<lparr>blk_x = 3, blk_y = 3, blk_height = 4, blk_width = 4,
                    blk_bounds = [[1, 2], [1, 2]]\<rparr>"
proof -
  let ?blk = "\<lparr>blk_x = 3, blk_y = 3, blk_height = 4, blk_width = 4,
                blk_bounds = [[1, 2], [1, 2]]\<rparr>"
  from scenario_5_2_1 [of "[]"] obtain bs where
    bs: "compute_blocks (sampler_on 5 5 2 2 1 []) = Inr bs"
    and row: "\<forall>blk\<in>set bs. blk_y blk = 3 \<longrightarrow> 1 < bottom_trim blk"
    and col: "\<forall>blk\<in>set bs. blk_x blk = 3 \<longrightarrow> 1 < right_trim blk"
    by blast
  have m: "?blk \<in> set bs" using bs unfolding blocks_5_2_1 by auto
  have "1 < bottom_trim ?blk" using row m by auto
  moreover have "1 < right_trim ?blk" using col m by auto
  ultimately show ?thesis using m bs by simp
qed

section \<open>Slices and crops\<close>

lemma py_slice_crop:
  assumes "0 \<le> a" "0 \<le> b" "b \<le> int (length xs)"
  shows "py_slice a (int (length xs) - b) xs = remove_first a (remove_last b xs)"
proof -
  have hi: "slice_index (int (length xs) - b) (length xs) = length xs - nat b"
    using assms by (simp add: slice_index_def nat_diff_distrib')
  have lo: "slice_index a (length xs) = min (nat a) (length xs)"
    using assms by (simp add: slice_index_def)
  have "drop (min (nat a) (length xs)) (take (length xs - nat b) xs)
          = drop (nat a) (take (length xs - nat b) xs)"
    by (cases "nat a \<le> length xs") (simp_all add: min_def)
  then show ?thesis
    unfolding py_slice_def hi lo remove_first_def remove_last_def .
qed

lemma rectangular_row:
  assumes "rectangular raster" "row \<in> set raster"
  shows "int (length row) = shape1 raster"
  using assms unfolding rectangular_def by blast

lemma slice2_crop:
  assumes "rectangular raster"
    and "0 \<le> n_top" "0 \<le> n_bottom" "n_bottom \<le> shape0 raster"
    and "0 \<le> n_left" "0 \<le> n_right" "n_right \<le> shape1 raster"
  shows "slice2 n_top (shape0 raster - n_bottom) n_left (shape1 raster - n_right) raster
           = crop_spec n_top n_bottom n_left n_right raster"
proof -
  have rows: "py_slice n_top (shape0 raster - n_bottom) raster
                = remove_first n_top (remove_last n_bottom raster)"
    using assms(2,3,4) unfolding shape0_def by (rule py_slice_crop)
  have cols: "py_slice n_left (shape1 raster - n_right) row
                = remove_first n_left (remove_last n_right row)"
    if "row \<in> set (remove_first n_top (remove_last n_bottom raster))" for row
  proof -
    from that have "row \<in> set raster"
      unfolding remove_first_def remove_last_def
      by (meson in_set_dropD in_set_takeD)
    then have len: "shape1 raster = int (length row)"
      using assms(1) by (simp add: rectangular_row)
    show ?thesis
      using assms(5,6,7) unfolding len by (rule py_slice_crop)
  qed
  show ?thesis
    unfolding slice2_def crop_spec_def rows using cols by (rule map_cong [OF refl])
qed


lemma crop_spec_zero: "crop_spec 0 0 0 0 raster = raster"
  by (simp add: crop_spec_def remove_first_def remove_last_def)

lemma bounds_at_simps:
  "bounds_at [[a, b], [c, d]] 0 0 = Inr a"
  "bounds_at [[a, b], [c, d]] 0 1 = Inr b"
  "bounds_at [[a, b], [c, d]] 1 0 = Inr c"
  "bounds_at [[a, b], [c, d]] 1 1 = Inr d"
  "bounds_at [[a, b], [c, d]] 0 (Suc 0) = Inr b"
  "bounds_at [[a, b], [c, d]] (Suc 0) 0 = Inr c"
  "bounds_at [[a, b], [c, d]] (Suc 0) (Suc 0) = Inr d"
  by (simp_all add: bounds_at_def bind_err_def py_index_def)

lemma write_with_bounds:
  "SampleWindowWriter_write raster x y width height (Some [[a, b], [c, d]]) self =
     Inr ((), dst_write (slice2 a (shape0 raster - b) c (shape1 raster - d) raster) 1
                ((y + a, y + a + (height - b - a)), (x + c, x + c + (width - d - c))) self)"
  by (simp add: SampleWindowWriter_write_def bounds_at_simps bind_err_def Let_def)

section \<open>Properties of the writers\<close>

text \<open>
  Claim C4, amended. For a call \<^verbatim>\<open>write(raster, x, y, width, height, bounds)\<close> with
  \<^verbatim>\<open>bounds = [[top, bottom], [left, right]]\<close> whose trims are non-negative and do
  not exceed the raster (\<open>bottom\<close> at most its rows, \<open>right\<close> at most its columns), the
  raster written is the raster with its first \<open>top\<close> rows, last \<open>bottom\<close> rows, first
  \<open>left\<close> columns and last \<open>right\<close> columns removed, and the destination window has
  origin \<open>(x + left, y + top)\<close> and extent
  \<open>(width - left - right, height - top - bottom)\<close>; the call returns no value.
\<close>

theorem write_crops_and_shifts:
  assumes "rectangular raster"
    and "0 \<le> n_top" "0 \<le> n_bottom" "n_bottom \<le> shape0 raster"
    and "0 \<le> n_left" "0 \<le> n_right" "n_right \<le> shape1 raster"
  shows "SampleWindowWriter_write raster x y width height
           (Some [[n_top, n_bottom], [n_left, n_right]]) self =
         Inr ((), self\<lparr>sww_dst := sww_dst self @
           [\<lparr>wc_raster = crop_spec n_top n_bottom n_left n_right raster,
             wc_indexes = 1,
             wc_window = ((y + n_top, y + n_top + (height - n_top - n_bottom)),
                          (x + n_left, x + n_left + (width - n_left - n_right)))\<rparr>]\<rparr>)"
proof -
  have "slice2 n_top (shape0 raster - n_bottom) n_left (shape1 raster - n_right) raster
          = crop_spec n_top n_bottom n_left n_right raster"
    using assms by (rule slice2_crop)
  then show ?thesis
    unfolding write_with_bounds dst_write_def by (simp add: algebra_simps)
qed

theorem write_crops_and_shifts_witness:
  "rectangular [[1, 2, 3], [4, 5, 6], [7, 8, 9::int]] \<and>
   (1::int) \<le> shape0 [[1, 2, 3], [4, 5, 6], [7, 8, 9::int]] \<and>
   (1::int) \<le> shape1 [[1, 2, 3], [4, 5, 6], [7, 8, 9::int]] \<and>
   SampleWindowWriter_write [[1, 2, 3], [4, 5, 6], [7, 8, 9::int]] 10 20 3 3
       (Some [[1, 1], [0, 1]]) (SampleWindowWriter_init ''out.tif'' (30, 30) ()) =
     Inr ((), \<lparr>sww_fp = ''out.tif'', sww_shape = (30, 30), sww_profile = (),
               sww_dst = [\<lparr>wc_raster = [[4, 5]], wc_indexes = 1,
                           wc_window = ((21, 22), (10, 12))\<rparr>]\<rparr>)"
proof -
  let ?r = "[[1, 2, 3], [4, 5, 6], [7, 8, 9::int]]"
  have r: "rectangular ?r" by (simp add: rectangular_def shape1_def)
  have s0: "(1::int) \<le> shape0 ?r" by (simp add: shape0_def)
  have s1: "(1::int) \<le> shape1 ?r" by (simp add: shape1_def)
  have c: "crop_spec 1 1 0 1 ?r = [[4, 5]]"
    by (simp add: crop_spec_def remove_first_def remove_last_def)
  show ?thesis
    using write_crops_and_shifts [OF r _ _ s0 _ _ s1, of 1 0 10 20 3 3
        "SampleWindowWriter_init ''out.tif'' (30, 30) ()"] r s0 s1
    by (simp add: c SampleWindowWriter_init_def)
qed

text \<open>
  Claim C4 as first stated fails for a trim larger than the raster: with two rows and
  \<^verbatim>\<open>bounds = [[0, 3], [0, 0]]\<close> the stop index \<open>2 - 3 = -1\<close> counts from the end,
  so the first row is written, while removing the last three rows leaves nothing.
\<close>

theorem write_trim_beyond_raster_counterexample:
  "SampleWindowWriter_write [[1, 2], [3, 4::int]] 0 0 2 2 (Some [[0, 3], [0, 0]])
       (SampleWindowWriter_init ''out.tif'' (2, 2) ()) =
     Inr ((), \<lparr>sww_fp = ''out.tif'', sww_shape = (2, 2), sww_profile = (),
               sww_dst = [\<lparr>wc_raster = [[1, 2]], wc_indexes = 1,
                           wc_window = ((0, - 1), (0, 2))\<rparr>]\<rparr>) \<and>
   crop_spec 0 3 0 0 [[1, 2], [3, 4::int]] = [] \<and>
   [[1, 2]] \<noteq> crop_spec 0 3 0 0 [[1, 2], [3, 4::int]]"
  by (simp add: write_with_bounds dst_write_def slice2_def py_slice_def slice_index_def
      shape0_def shape1_def SampleWindowWriter_init_def crop_spec_def remove_first_def
      remove_last_def)

text \<open>
  Claim C10. For every (rectangular) raster and every window, \<^verbatim>\<open>write\<close> with
  \<^verbatim>\<open>bounds = [[0, 0], [0, 0]]\<close> has the same result as with \<^verbatim>\<open>bounds = None\<close>:
  the same raster is written to the same destination window.
\<close>

theorem zero_bounds_same_as_none:
  assumes "rectangular raster"
  shows "SampleWindowWriter_write raster x y width height (Some [[0, 0], [0, 0]]) self =
         SampleWindowWriter_write raster x y width height None self"
proof -
  have "slice2 0 (shape0 raster - 0) 0 (shape1 raster - 0) raster = crop_spec 0 0 0 0 raster"
    using assms by (intro slice2_crop) (simp_all add: shape0_def shape1_def split: list.splits)
  then have "slice2 0 (shape0 raster - 0) 0 (shape1 raster - 0) raster = raster"
    by (simp only: crop_spec_zero)
  then show ?thesis
    unfolding write_with_bounds by (simp add: SampleWindowWriter_write_def)
qed

theorem zero_bounds_same_as_none_witness:
  "rectangular [[1, 2, 3], [4, 5, 6::int]] \<and>
   SampleWindowWriter_write [[1, 2, 3], [4, 5, 6::int]] 4 7 3 2 (Some [[0, 0], [0, 0]])
       (SampleWindowWriter_init ''out.tif'' (30, 30) ()) =
     SampleWindowWriter_write [[1, 2, 3], [4, 5, 6::int]] 4 7 3 2 None
       (SampleWindowWriter_init ''out.tif'' (30, 30) ()) \<and>
   SampleWindowWriter_write [[1, 2, 3], [4, 5, 6::int]] 4 7 3 2 None
       (SampleWindowWriter_init ''out.tif'' (30, 30) ()) =
     Inr ((), \<lparr>sww_fp = ''out.tif'', sww_shape = (30, 30), sww_profile = (),
               sww_dst = [\<lparr>wc_raster = [[1, 2, 3], [4, 5, 6]], wc_indexes = 1,
                           wc_window = ((7, 9), (4, 7))\<rparr>]\<rparr>)"
proof -
  have r: "rectangular [[1, 2, 3], [4, 5, 6::int]]" by (simp add: rectangular_def shape1_def)
  show ?thesis
    using zero_bounds_same_as_none [OF r, of 4 7 3 2
        "SampleWindowWriter_init ''out.tif'' (30, 30) ()"] r
    by (simp add: SampleWindowWriter_write_def dst_write_def SampleWindowWriter_init_def)
qed

text \<open>
  Claim C2 does not hold of the code. The multi-channel method passes
  \<^verbatim>\<open>height, width\<close> positionally where the single-channel method expects
  \<^verbatim>\<open>width, height\<close>: for one channel of 2 rows and 3 columns written with
  \<open>height = 2\<close> and \<open>width = 3\<close>, the single-channel writer is called with width 2 and
  height 3 and writes the window of rows \<open>[0, 3)\<close> and columns \<open>[0, 2)\<close>, while the same
  values given to it directly yield rows \<open>[0, 2)\<close> and columns \<open>[0, 3)\<close>.
\<close>

theorem collection_write_swaps_width_height:
  "SampleCollectionWindowWriter_write [[[1, 2, 3], [4, 5, 6::int]]] 0 0 2 3 None
     \<lparr>scww_fps = [''out/A.tif''], scww_channels = [''A''], scww_shape = (2, 3),
      scww_profile = (),
      scww_writers = SampleCollectionWindowWriter_open [''out/A.tif''] (2, 3) ()\<rparr> =
   Inr ((), \<lparr>scww_fps = [''out/A.tif''], scww_channels = [''A''], scww_shape = (2, 3),
      scww_profile = (),
      scww_writers = [\<lparr>sww_fp = ''out/A.tif'', sww_shape = (2, 3), sww_profile = (),
         sww_dst = [\<lparr>wc_raster = [[1, 2, 3], [4, 5, 6]], wc_indexes = 1,
                     wc_window = ((0, 3), (0, 2))\<rparr>]\<rparr>]\<rparr>) \<and>
   SampleWindowWriter_write [[1, 2, 3], [4, 5, 6::int]] 0 0 3 2 None
     (SampleWindowWriter_init ''out/A.tif'' (2, 3) ()) =
   Inr ((), \<lparr>sww_fp = ''out/A.tif'', sww_shape = (2, 3), sww_profile = (),
         sww_dst = [\<lparr>wc_raster = [[1, 2, 3], [4, 5, 6]], wc_indexes = 1,
                     wc_window = ((0, 2), (0, 3))\<rparr>]\<rparr>)"
  by (simp add: SampleCollectionWindowWriter_write_def SampleCollectionWindowWriter_open_def
      SampleWindowWriter_init_def SampleWindowWriter_write_def dst_write_def bind_err_def
      py_index_def)

section \<open>Properties of the predictor\<close>

text \<open>
  Claim C8 does not hold of the code. The base \<^verbatim>\<open>predict\<close> never returns a value,
  but the exception it raises is the \<^verbatim>\<open>TypeError\<close> of calling the constant
  \<^verbatim>\<open>NotImplemented\<close>, not \<^verbatim>\<open>NotImplementedError\<close>.
\<close>

theorem predict_raises_type_error:
  "Predictor_predict sample kwargs =
     Inl (TypeError ''NotImplementedType object is not callable'') \<and>
   Predictor_predict sample kwargs \<noteq> Inl (NotImplementedError msg)"
  by (simp add: Predictor_predict_def py_call_def bind_err_def)

end
